theory Spec2Isabelle
  imports Main
begin

section \<open>Python values used by \<open>database.py\<close>\<close>

text \<open>
  The exceptions that the modelled code can meet. Every \<^verbatim>\<open>except:\<close> of the
  source is a bare one, so the handlers never look at which error they caught.
\<close>

datatype error =
    FileNotFoundError
  | BadZipFile
  | UnboundLocalError
  | ValueError
  | KeyError
  | IndexError

subsection \<open>\<open>str\<close> of an integer\<close>

definition digit :: "nat \<Rightarrow> char" where
  "digit d = ''0123456789'' ! d"

fun str_nat :: "nat \<Rightarrow> string" where
  "str_nat n = (if n < 10 then [digit n] else str_nat (n div 10) @ [digit (n mod 10)])"

declare str_nat.simps [simp del]

definition str_int :: "int \<Rightarrow> string" where
  "str_int i = (if i < 0 then CHR ''-'' # str_nat (nat (- i)) else str_nat (nat i))"

subsection \<open>\<open>str.split(".")\<close> and \<open>".".join\<close>\<close>

text \<open>
  \<^verbatim>\<open>s.split(".")\<close> cuts at every dot and keeps empty segments, so the result
  always has at least one element (\<^verbatim>\<open>"".split(".") == [""]\<close>).
\<close>

fun split_dot :: "string \<Rightarrow> string list" where
  "split_dot [] = [[]]"
| "split_dot (c # cs) =
     (if c = CHR ''.'' then [] # split_dot cs
      else (let r = split_dot cs in (c # hd r) # tl r))"

fun join_dot :: "string list \<Rightarrow> string" where
  "join_dot [] = []"
| "join_dot [x] = x"
| "join_dot (x # y # ys) = x @ ''.'' @ join_dot (y # ys)"

section \<open>The spreadsheet library, as far as the code relies on it\<close>

text \<open>
  A path of the file system holds nothing, a file that is not a workbook, or a workbook:
  its sheets in on-disk order, each a name and a table. The tables are of any type
  \<open>'df\<close>; only the merge of sheets looks inside them.
\<close>

datatype 'df file_content = Malformed | Workbook "(string \<times> 'df) list"

type_synonym 'df filesystem = "string \<Rightarrow> 'df file_content option"

text \<open>\<^verbatim>\<open>pd.ExcelFile(path)\<close>: raises when the path is missing or is not a workbook.\<close>

definition ExcelFile :: "'df filesystem \<Rightarrow> string \<Rightarrow> error + (string \<times> 'df) list" where
  "ExcelFile fs path =
     (case fs path of
        None \<Rightarrow> Inl FileNotFoundError
      | Some Malformed \<Rightarrow> Inl BadZipFile
      | Some (Workbook sheets) \<Rightarrow> Inr sheets)"

text \<open>\<^verbatim>\<open>ExcelFile.parse(sheet_name)\<close>: the table of the sheet of that name.\<close>

definition parse :: "(string \<times> 'df) list \<Rightarrow> string \<Rightarrow> error + 'df" where
  "parse book name = (case map_of book name of None \<Rightarrow> Inl ValueError | Some df \<Rightarrow> Inr df)"

text \<open>\<^verbatim>\<open>os.remove(path)\<close>: raises when there is no such file.\<close>

definition os_remove :: "'df filesystem \<Rightarrow> string \<Rightarrow> error + 'df filesystem" where
  "os_remove fs path =
     (case fs path of None \<Rightarrow> Inl FileNotFoundError | Some c \<Rightarrow> Inr (fs(path := None)))"

text \<open>
  The writing half of the library is a parameter of the model. A writer is a value of any
  type \<open>'w\<close>. \<open>ExcelWriter\<close> makes the writer for a path, \<open>to_excel\<close> writes one table
  under a sheet name, with the two index arguments, and gives back the exception it
  raised, if any, and the writer as the call left it; \<open>save\<close> is the list of sheets that the
  workbook holds when the \<^verbatim>\<open>with\<close> block closes the writer.
\<close>

record ('w, 'df) library =
  ExcelWriter :: "string \<Rightarrow> 'w"
  to_excel :: "'w \<Rightarrow> string \<Rightarrow> 'df \<Rightarrow> bool \<Rightarrow> string \<Rightarrow> error option \<times> 'w"
  save :: "'w \<Rightarrow> (string \<times> 'df) list"

subsection \<open>Ordered dictionaries\<close>

text \<open>
  \<^verbatim>\<open>d[key] = value\<close> on an \<^verbatim>\<open>OrderedDict\<close> or a \<^verbatim>\<open>dict\<close>, as an association
  list in insertion order: a key that is present keeps its place.
\<close>

fun setitem :: "(string \<times> 'df) list \<Rightarrow> string \<Rightarrow> 'df \<Rightarrow> (string \<times> 'df) list" where
  "setitem [] key val = [(key, val)]"
| "setitem ((k, v) # d) key val =
     (if k = key then (key, val) # d else (k, v) # setitem d key val)"

text \<open>\<^verbatim>\<open>d.update(other)\<close>: every item of \<open>other\<close> is assigned, in its order.\<close>

fun update :: "(string \<times> 'df) list \<Rightarrow> (string \<times> 'df) list \<Rightarrow> (string \<times> 'df) list" where
  "update d [] = d"
| "update d ((key, val) # other) = update (setitem d key val) other"

subsection \<open>Tables\<close>

text \<open>
  Only \<^verbatim>\<open>get_merged_DataFrame_of_file\<close> looks inside a table. A table there is its
  column labels and its rows, a row holding one cell for each column; \<open>NaN\<close> is the
  missing value.
\<close>

datatype cell = NaN | Str string | Num int

record DataFrame =
  columns :: "string list"
  rows :: "cell list list"

text \<open>\<^verbatim>\<open>pd.DataFrame()\<close>\<close>

definition DataFrame_empty :: DataFrame where
  "DataFrame_empty = \<lparr>columns = [], rows = []\<rparr>"

text \<open>\<^verbatim>\<open>df.fillna(value)\<close>\<close>

definition fillna :: "cell \<Rightarrow> DataFrame \<Rightarrow> DataFrame" where
  "fillna val df = df\<lparr>rows := map (map (\<lambda>c. if c = NaN then val else c)) (rows df)\<rparr>"

text \<open>
  The rows of a table laid out under other column labels: a column that the table does
  not have is filled with the missing value.
\<close>

definition reindex :: "string list \<Rightarrow> DataFrame \<Rightarrow> cell list list" where
  "reindex cols df =
     map (\<lambda>r. map (\<lambda>c. case map_of (zip (columns df) r) c of None \<Rightarrow> NaN | Some v \<Rightarrow> v) cols)
       (rows df)"

text \<open>
  \<^verbatim>\<open>pd.concat([a, b])\<close>: the rows of \<open>a\<close>, then the rows of \<open>b\<close>, under the columns of
  \<open>a\<close> followed by the columns that only \<open>b\<close> has.
\<close>

definition concat2 :: "DataFrame \<Rightarrow> DataFrame \<Rightarrow> DataFrame" where
  "concat2 a b =
     (let cols = columns a @ filter (\<lambda>c. c \<notin> set (columns a)) (columns b)
      in \<lparr>columns = cols, rows = reindex cols a @ reindex cols b\<rparr>)"

text \<open>\<^verbatim>\<open>df.iloc[i][c]\<close>: the cell of row \<open>i\<close> under the column \<open>c\<close>.\<close>

definition loc :: "DataFrame \<Rightarrow> nat \<Rightarrow> string \<Rightarrow> error + cell" where
  "loc df i c =
     (if i < length (rows df)
      then (case map_of (zip (columns df) (rows df ! i)) c of
              None \<Rightarrow> Inl KeyError
            | Some v \<Rightarrow> Inr v)
      else Inl IndexError)"

section \<open>\<open>XL_READ\<close>\<close>

record 'df XL_READ =
  df_dict :: "(string \<times> 'df) list"
  sheet_name :: "string option"
  xl :: "(string \<times> 'df) list"
  sheet_names :: "string list"

text \<open>\<^verbatim>\<open>XL_READ.__init__(self, xl, sheet_name=None)\<close>\<close>

definition XL_READ_init ::
  "'df filesystem \<Rightarrow> string \<Rightarrow> string option \<Rightarrow> error + 'df XL_READ" where
  "XL_READ_init fs path sn =
     (case ExcelFile fs path of
        Inl e \<Rightarrow> Inl e
      | Inr book \<Rightarrow>
          Inr \<lparr>df_dict = [], sheet_name = sn, xl = book, sheet_names = map fst book\<rparr>)"

text \<open>The methods \<^verbatim>\<open>__len__\<close>, \<^verbatim>\<open>__iter__\<close>, \<^verbatim>\<open>__getitem__\<close> and \<^verbatim>\<open>__setitem__\<close>.\<close>

definition XL_READ_len :: "'df XL_READ \<Rightarrow> nat" where
  "XL_READ_len x = length (df_dict x)"

definition XL_READ_iter :: "'df XL_READ \<Rightarrow> (string \<times> 'df) list" where
  "XL_READ_iter x = df_dict x"

definition XL_READ_getitem :: "'df XL_READ \<Rightarrow> string \<Rightarrow> error + 'df" where
  "XL_READ_getitem x key =
     (case map_of (df_dict x) key of None \<Rightarrow> Inl KeyError | Some v \<Rightarrow> Inr v)"

definition XL_READ_setitem :: "'df XL_READ \<Rightarrow> string \<Rightarrow> 'df \<Rightarrow> 'df XL_READ" where
  "XL_READ_setitem x key val = x\<lparr>df_dict := setitem (df_dict x) key val\<rparr>"

text \<open>
  \<^verbatim>\<open>if self.sheet_name:\<close> is the truth value of the attribute: \<^verbatim>\<open>None\<close> and the
  empty string are false.
\<close>

fun truthy :: "string option \<Rightarrow> bool" where
  "truthy None = False"
| "truthy (Some s) = (s \<noteq> [])"

text \<open>Reading a local variable: one that no assignment has bound yet raises.\<close>

fun read_local :: "'a option \<Rightarrow> error + 'a" where
  "read_local None = Inl UnboundLocalError"
| "read_local (Some v) = Inr v"

text \<open>
  The \<^verbatim>\<open>for sheet_name in self.sheet_names\<close> loop of \<^verbatim>\<open>read_sheets\<close>; the loop
  variable is \<open>name\<close> here, \<open>sheet_name\<close> being the attribute.
\<close>

fun read_each :: "'df XL_READ \<Rightarrow> string list \<Rightarrow> error + 'df XL_READ" where
  "read_each x [] = Inr x"
| "read_each x (name # rest) =
     (case parse (xl x) name of
        Inl e \<Rightarrow> Inl e
      | Inr df \<Rightarrow> read_each (XL_READ_setitem x name df) rest)"

text \<open>
  \<^verbatim>\<open>XL_READ.read_sheets(self)\<close>. The name \<^verbatim>\<open>sheet_name\<close> is a local variable of the
  method, because the \<^verbatim>\<open>for\<close> loop of the \<^verbatim>\<open>else\<close> branch assigns it; the first
  branch passes that local, not the attribute \<^verbatim>\<open>self.sheet_name\<close>, to \<^verbatim>\<open>parse\<close>,
  and nothing has bound it on that path.
\<close>

definition read_sheets :: "'df XL_READ \<Rightarrow> error + 'df XL_READ" where
  "read_sheets x =
     (let local_sheet_name = (None :: string option)
      in if truthy (sheet_name x)
         then (case read_local local_sheet_name of
                 Inl e \<Rightarrow> Inl e
               | Inr arg \<Rightarrow>
                   (case parse (xl x) arg of
                      Inl e \<Rightarrow> Inl e
                    | Inr df \<Rightarrow> Inr (XL_READ_setitem x (the (sheet_name x)) df)))
         else read_each x (sheet_names x))"

section \<open>The module's functions for reading\<close>

text \<open>\<^verbatim>\<open>read_xl(file)\<close>\<close>

definition read_xl :: "'df filesystem \<Rightarrow> string \<Rightarrow> error + 'df XL_READ" where
  "read_xl fs file =
     (case XL_READ_init fs file None of
        Inl e \<Rightarrow> Inl e
      | Inr xlrd \<Rightarrow> read_sheets xlrd)"

text \<open>
  \<^verbatim>\<open>get_merged_DataFrame_of_file(file)\<close>; \<open>merge_loop\<close> is its \<^verbatim>\<open>for k, v in xlr\<close>
  loop, with the table \<open>df\<close> built so far.
\<close>

fun merge_loop :: "DataFrame \<Rightarrow> (string \<times> DataFrame) list \<Rightarrow> DataFrame" where
  "merge_loop df [] = df"
| "merge_loop df ((k, v) # rest) =
     (let v = fillna (Str []) v
      in merge_loop (concat2 v df) rest)"

definition get_merged_DataFrame_of_file :: "DataFrame filesystem \<Rightarrow> string \<Rightarrow> error + DataFrame" where
  "get_merged_DataFrame_of_file fs file =
     (case read_xl fs file of
        Inl e \<Rightarrow> Inl e
      | Inr xlr \<Rightarrow> Inr (merge_loop DataFrame_empty (XL_READ_iter xlr)))"

section \<open>\<open>XL_WRITE\<close>: the name of the copy\<close>

text \<open>\<^verbatim>\<open>XL_WRITE.copy_of_file(self, file, n)\<close>\<close>

definition copy_of_file :: "string \<Rightarrow> int \<Rightarrow> string" where
  "copy_of_file file n =
     (let spl_file = split_dot file;
          name = join_dot (butlast spl_file);
          extn = last spl_file;
          next_num = (if n = 1 then [] else '' ('' @ str_int n @ '')'')
      in name @ '' - Copy'' @ next_num @ ''.'' @ extn)"

text \<open>
  \<^verbatim>\<open>XL_WRITE.get_valid_file_name(self, file)\<close>. The \<^verbatim>\<open>while True\<close> loop has no
  bound of its own, so it is a partial function: \<open>None\<close> is the loop that never leaves.
  The loop state is the candidate \<open>file\<close> and the counter \<open>n\<close>; \<open>file_name\<close> keeps the
  name the caller gave.
\<close>

partial_function (option) probe ::
  "'df filesystem \<Rightarrow> string \<Rightarrow> string \<Rightarrow> int \<Rightarrow> string option" where
  "probe fs file_name file n =
     (case XL_READ_init fs file None of
        Inr opened \<Rightarrow> probe fs file_name (copy_of_file file_name (n + 1)) (n + 1)
      | Inl e \<Rightarrow> Some file)"

definition get_valid_file_name :: "'df filesystem \<Rightarrow> string \<Rightarrow> string option" where
  "get_valid_file_name fs file = probe fs file file 0"

section \<open>\<open>XL_WRITE\<close>: writing the sheets\<close>

text \<open>The three lines that \<^verbatim>\<open>write\<close> prints.\<close>

definition failed_msg :: "string \<Rightarrow> string \<Rightarrow> string" where
  "failed_msg fileName sht_name =
     ''writing data for '' @ fileName @ '' sheet '' @ sht_name
       @ '' ...failed!!!, length of sheet name = '' @ str_nat (length sht_name)"

definition trunked_done_msg :: "string \<Rightarrow> string \<Rightarrow> string" where
  "trunked_done_msg fileName sht_name =
     ''instead data for '' @ fileName @ '' sheet '' @ take 31 sht_name @ '' - trunked ...done!''"

definition trunked_failed_msg :: "string \<Rightarrow> string \<Rightarrow> string" where
  "trunked_failed_msg fileName sht_name =
     ''writing data for '' @ fileName @ '' sheet '' @ take 31 sht_name
       @ '' - trunked ...failed!!!''"

text \<open>
  The body of the \<^verbatim>\<open>for sht_name, df in df_dict.items()\<close> loop of \<^verbatim>\<open>write\<close>, on the
  writer and the lines printed so far. Each \<^verbatim>\<open>except:\<close> catches whatever the call
  before it raised.
\<close>

definition write_sheet ::
  "('w, 'df) library \<Rightarrow> string \<Rightarrow> bool \<Rightarrow> string \<Rightarrow> string \<times> 'df \<Rightarrow> 'w \<times> string list
     \<Rightarrow> 'w \<times> string list" where
  "write_sheet lib fileName index index_label item st =
     (case item of (sht_name, df) \<Rightarrow>
      case st of (writer_file, out) \<Rightarrow>
        (case to_excel lib writer_file sht_name df index index_label of
           (None, w1) \<Rightarrow> (w1, out)
         | (Some e1, w1) \<Rightarrow>
             (let out1 = out @ [failed_msg fileName sht_name]
              in case to_excel lib w1 (take 31 sht_name) df index index_label of
                   (None, w2) \<Rightarrow> (w2, out1 @ [trunked_done_msg fileName sht_name])
                 | (Some e2, w2) \<Rightarrow> (w2, out1 @ [trunked_failed_msg fileName sht_name]))))"

fun write_sheets ::
  "('w, 'df) library \<Rightarrow> string \<Rightarrow> bool \<Rightarrow> string \<Rightarrow> (string \<times> 'df) list \<Rightarrow> 'w \<times> string list
     \<Rightarrow> 'w \<times> string list" where
  "write_sheets lib fileName index index_label [] st = st"
| "write_sheets lib fileName index index_label (item # rest) st =
     write_sheets lib fileName index index_label rest
       (write_sheet lib fileName index index_label item st)"

text \<open>
  \<^verbatim>\<open>XL_WRITE.write(self, name, df_dict, index, index_label, overwrite)\<close>, on the file
  system and the lines printed so far. The result is \<open>None\<close> when the probe for a free
  name never ends. Leaving the \<^verbatim>\<open>with\<close> block saves the workbook at \<open>fileName\<close>.
  (\<open>write\<close> alone is a keyword of Isabelle, hence the longer name; the parameter
  \<^verbatim>\<open>df_dict\<close> is \<open>dfs\<close>, \<open>df_dict\<close> being the attribute of the reader.)
\<close>

definition XL_WRITE_write ::
  "('w, 'df) library \<Rightarrow> string \<Rightarrow> (string \<times> 'df) list \<Rightarrow> bool \<Rightarrow> string \<Rightarrow> bool
     \<Rightarrow> 'df filesystem \<times> string list \<Rightarrow> ('df filesystem \<times> string list) option" where
  "XL_WRITE_write lib name dfs index index_label overwrite st =
     (case st of (fs, out) \<Rightarrow>
      case (if overwrite then Some name else get_valid_file_name fs name) of
        None \<Rightarrow> None
      | Some fileName \<Rightarrow>
          (case write_sheets lib fileName index index_label dfs
                  (ExcelWriter lib fileName, out) of
             (writer_file, out') \<Rightarrow>
               Some (fs(fileName \<mapsto> Workbook (save lib writer_file)), out')))"

text \<open>\<^verbatim>\<open>XL_WRITE.__init__(self, name, df_dict, index, overwrite, index_label)\<close>\<close>

definition XL_WRITE_init ::
  "('w, 'df) library \<Rightarrow> string \<Rightarrow> (string \<times> 'df) list \<Rightarrow> bool \<Rightarrow> bool \<Rightarrow> string
     \<Rightarrow> 'df filesystem \<times> string list \<Rightarrow> ('df filesystem \<times> string list) option" where
  "XL_WRITE_init lib name dfs index overwrite index_label st =
     XL_WRITE_write lib name dfs index index_label overwrite st"

section \<open>The module's functions for writing\<close>

text \<open>\<^verbatim>\<open>write_to_xl(file, df_dict, index, overwrite, index_label)\<close>\<close>

definition write_to_xl ::
  "('w, 'df) library \<Rightarrow> string \<Rightarrow> (string \<times> 'df) list \<Rightarrow> bool \<Rightarrow> bool \<Rightarrow> string
     \<Rightarrow> 'df filesystem \<times> string list \<Rightarrow> ('df filesystem \<times> string list) option" where
  "write_to_xl lib file dfs index overwrite index_label st =
     XL_WRITE_init lib file dfs index overwrite index_label st"

text \<open>
  \<^verbatim>\<open>append_to_xl(file, df_dict, overwrite, index_label)\<close>, the parameter
  \<^verbatim>\<open>df_dict\<close> being \<open>new_dict\<close> here. Both \<^verbatim>\<open>try\<close> blocks have a bare
  \<^verbatim>\<open>except\<close>; the call of \<^verbatim>\<open>write_to_xl\<close> leaves \<^verbatim>\<open>index\<close> at its default,
  which is false.
\<close>

definition append_to_xl ::
  "('w, 'df) library \<Rightarrow> string \<Rightarrow> (string \<times> 'df) list \<Rightarrow> bool \<Rightarrow> string
     \<Rightarrow> 'df filesystem \<times> string list \<Rightarrow> ('df filesystem \<times> string list) option" where
  "append_to_xl lib file new_dict overwrite index_label st =
     (case st of (fs, out) \<Rightarrow>
        (let prev_dict = (case read_xl fs file of Inr xlrd \<Rightarrow> df_dict xlrd | Inl e \<Rightarrow> []);
             prev_dict = update prev_dict new_dict;
             fs = (if overwrite
                   then (case os_remove fs file of Inr fs' \<Rightarrow> fs' | Inl e \<Rightarrow> fs)
                   else fs)
         in write_to_xl lib file prev_dict False overwrite index_label (fs, out)))"

section \<open>The naming convention in the words of the specification\<close>

text \<open>
  The extension is what follows the last dot of the name, the basename what precedes that
  dot. A name without a dot has no last dot: all of it is the extension.
\<close>

definition extension :: "string \<Rightarrow> string" where
  "extension file = rev (takeWhile (\<lambda>c. c \<noteq> CHR ''.'') (rev file))"

definition basename :: "string \<Rightarrow> string" where
  "basename file = rev (drop 1 (dropWhile (\<lambda>c. c \<noteq> CHR ''.'') (rev file)))"

definition copy_suffix :: "int \<Rightarrow> string" where
  "copy_suffix k = (if k = 1 then '' - Copy'' else '' - Copy ('' @ str_int k @ '')'')"

text \<open>The candidate probed after \<open>k\<close> collisions.\<close>

definition candidate :: "string \<Rightarrow> int \<Rightarrow> string" where
  "candidate file k =
     (if k = 0 then file else basename file @ copy_suffix k @ ''.'' @ extension file)"

definition opens :: "'df filesystem \<Rightarrow> string \<Rightarrow> bool" where
  "opens fs path = (case fs path of Some (Workbook sheets) \<Rightarrow> True | _ \<Rightarrow> False)"

text \<open>
  The tables that a path holds already: the sheets of the workbook there, and none when
  the path is missing or does not open.
\<close>

definition existing_tables :: "'df filesystem \<Rightarrow> string \<Rightarrow> (string \<times> 'df) list" where
  "existing_tables fs file = (case fs file of Some (Workbook sheets) \<Rightarrow> sheets | _ \<Rightarrow> [])"

section \<open>Observing the calls of \<open>to_excel\<close>\<close>



section \<open>A library to run the functions on concrete inputs\<close>

text \<open>
  The writer is the list of sheets written so far. A sheet name is accepted when it has at
  most 31 characters, none of them illegal, and is not in the workbook yet. With
  \<open>index\<close> on, the sheet gets the row numbers as a first column under \<open>index_label\<close>.
\<close>

definition with_index :: "string \<Rightarrow> DataFrame \<Rightarrow> DataFrame" where
  "with_index index_label df =
     \<lparr>columns = index_label # columns df,
      rows = map (\<lambda>(i, r). Num (int i) # r) (enumerate 0 (rows df))\<rparr>"

definition sheet_of :: "bool \<Rightarrow> string \<Rightarrow> DataFrame \<Rightarrow> DataFrame" where
  "sheet_of index index_label df = (if index then with_index index_label df else df)"

definition book_library :: "char set \<Rightarrow> ((string \<times> DataFrame) list, DataFrame) library" where
  "book_library illegal =
     \<lparr>ExcelWriter = (\<lambda>path. []),
      to_excel = (\<lambda>w sht_name df index index_label.
         if length sht_name \<le> 31 \<and> set sht_name \<inter> illegal = {} \<and> sht_name \<notin> fst ` set w
         then (None, w @ [(sht_name, sheet_of index index_label df)])
         else (Some ValueError, w)),
      save = (\<lambda>w. w)\<rparr>"

definition excel_illegal :: "char set" where
  "excel_illegal = set (CHR 0x5C # ''/?*[]:'')"

section \<open>Concrete inputs\<close>

text \<open>A file system where \<open>X.xlsx\<close> and its first copy are workbooks already.\<close>

definition fs_two_copies :: "DataFrame filesystem" where
  "fs_two_copies = [''X.xlsx'' \<mapsto> Workbook [], ''X - Copy.xlsx'' \<mapsto> Workbook []]"

text \<open>A file system where \<open>X.xlsx\<close> exists and is not a workbook.\<close>

definition fs_malformed :: "nat filesystem" where
  "fs_malformed = [''X.xlsx'' \<mapsto> Malformed]"

text \<open>A workbook of one sheet.\<close>

definition fs_one_sheet :: "nat filesystem" where
  "fs_one_sheet = [''book.xlsx'' \<mapsto> Workbook [(''Sheet1'', 0)]]"

text \<open>A reader that holds two tables and has two sheets to load.\<close>

definition reader_AB :: "nat XL_READ" where
  "reader_AB =
     \<lparr>df_dict = [(''A'', 1), (''B'', 2)], sheet_name = None,
      xl = [(''B'', 5), (''C'', 7)], sheet_names = [''B'', ''C'']\<rparr>"

text \<open>Two tables with one column each, and workbooks made of them.\<close>

definition table_x :: DataFrame where
  "table_x = \<lparr>columns = [''x''], rows = [[Num 1], [NaN]]\<rparr>"

definition table_y :: DataFrame where
  "table_y = \<lparr>columns = [''y''], rows = [[Num 2]]\<rparr>"

definition fs_xy :: "DataFrame filesystem" where
  "fs_xy = [''f.xlsx'' \<mapsto> Workbook [(''A'', table_x), (''B'', table_y)]]"

definition fs_xx :: "DataFrame filesystem" where
  "fs_xx = [''f.xlsx'' \<mapsto> Workbook [(''A'', table_x), (''B'', table_x)]]"



section \<open>Strings\<close>

lemma digit_inj: "a < 10 \<Longrightarrow> b < 10 \<Longrightarrow> digit a = digit b \<Longrightarrow> a = b"
proof -
  assume a: "a < 10" and b: "b < 10" and e: "digit a = digit b"
  have d: "distinct ''0123456789''" by simp
  have "a < length ''0123456789''" "b < length ''0123456789''" using a b by simp_all
  with d e show "a = b" unfolding digit_def by (simp only: nth_eq_iff_index_eq)
qed

lemma str_nat_not_Nil: "str_nat n \<noteq> []"
  by (subst str_nat.simps) simp

lemma str_nat_inj: "str_nat a = str_nat b \<Longrightarrow> a = b"
proof (induction a arbitrary: b rule: str_nat.induct)
  case (1 a)
  show ?case
  proof (cases "a < 10")
    case small_a: True
    show ?thesis
    proof (cases "b < 10")
      case True
      with small_a "1.prems" show ?thesis
        by (simp add: str_nat.simps [of a] str_nat.simps [of b] digit_inj)
    next
      case False
      with small_a "1.prems" show ?thesis
        by (simp add: str_nat.simps [of a] str_nat.simps [of b] str_nat_not_Nil [THEN not_sym])
    qed
  next
    case big_a: False
    show ?thesis
    proof (cases "b < 10")
      case True
      with big_a "1.prems" show ?thesis
        by (simp add: str_nat.simps [of a] str_nat.simps [of b] str_nat_not_Nil)
    next
      case False
      with big_a "1.prems" have
        q: "str_nat (a div 10) = str_nat (b div 10)" and
        r: "digit (a mod 10) = digit (b mod 10)"
        by (simp_all add: str_nat.simps [of a] str_nat.simps [of b])
      from "1.IH" [OF big_a q] have "a div 10 = b div 10" .
      moreover from r have "a mod 10 = b mod 10" by (simp add: digit_inj)
      ultimately show ?thesis by (metis div_mult_mod_eq)
    qed
  qed
qed

lemma str_int_inj: "0 \<le> i \<Longrightarrow> 0 \<le> j \<Longrightarrow> str_int i = str_int j \<Longrightarrow> i = j"
  by (auto simp: str_int_def dest: str_nat_inj)

lemma split_dot_not_Nil: "split_dot s \<noteq> []"
  by (induction s) (simp_all add: Let_def)

lemma split_dot_no_dot: "CHR ''.'' \<notin> set s \<Longrightarrow> split_dot s = [s]"
  by (induction s) (auto simp: Let_def)

lemma split_dot_append: "split_dot (a @ CHR ''.'' # b) = split_dot a @ split_dot b"
proof (induction a)
  case Nil
  show ?case by simp
next
  case (Cons c a)
  obtain x xs where r: "split_dot a = x # xs"
    using split_dot_not_Nil [of a] by (cases "split_dot a") auto
  with Cons show ?case by (simp add: Let_def)
qed

lemma join_dot_snoc: "xs \<noteq> [] \<Longrightarrow> join_dot (xs @ [y]) = join_dot xs @ ''.'' @ y"
  by (induction xs rule: join_dot.induct) simp_all

lemma join_split_dot: "join_dot (split_dot s) = s"
proof (induction s)
  case Nil
  show ?case by simp
next
  case (Cons c s)
  obtain x xs where r: "split_dot s = x # xs"
    using split_dot_not_Nil [of s] by (cases "split_dot s") auto
  with Cons show ?case by (cases xs) (simp_all add: Let_def)
qed

text \<open>A name with a dot is cut at its last dot, by the code and by the specification.\<close>

lemma split_at_last_dot:
  assumes "CHR ''.'' \<notin> set b"
  shows "join_dot (butlast (split_dot (a @ CHR ''.'' # b))) = a"
    and "last (split_dot (a @ CHR ''.'' # b)) = b"
    and "basename (a @ CHR ''.'' # b) = a"
    and "extension (a @ CHR ''.'' # b) = b"
proof -
  have s: "split_dot (a @ CHR ''.'' # b) = split_dot a @ [b]"
    using assms by (simp add: split_dot_append split_dot_no_dot)
  show "join_dot (butlast (split_dot (a @ CHR ''.'' # b))) = a"
    by (simp add: s join_split_dot)
  show "last (split_dot (a @ CHR ''.'' # b)) = b"
    by (simp add: s)
  have t: "takeWhile (\<lambda>c. c \<noteq> CHR ''.'') (rev b @ CHR ''.'' # rev a) = rev b"
    using assms by (auto simp: takeWhile_tail takeWhile_eq_all_conv)
  have d: "dropWhile (\<lambda>c. c \<noteq> CHR ''.'') (rev b @ CHR ''.'' # rev a) = CHR ''.'' # rev a"
    using assms by (auto simp: dropWhile_append3 dropWhile_append2)
  show "basename (a @ CHR ''.'' # b) = a" by (simp add: basename_def d)
  show "extension (a @ CHR ''.'' # b) = b" by (simp add: extension_def t)
qed

lemma no_dot_parts:
  assumes "CHR ''.'' \<notin> set file"
  shows "join_dot (butlast (split_dot file)) = []"
    and "last (split_dot file) = file"
    and "basename file = []"
    and "extension file = file"
proof -
  have t: "takeWhile (\<lambda>c. c \<noteq> CHR ''.'') (rev file) = rev file"
    using assms by (auto simp: takeWhile_eq_all_conv)
  have d: "dropWhile (\<lambda>c. c \<noteq> CHR ''.'') (rev file) = []"
    using assms by (auto simp: dropWhile_eq_Nil_conv)
  show "join_dot (butlast (split_dot file)) = []" "last (split_dot file) = file"
    using assms by (simp_all add: split_dot_no_dot)
  show "basename file = []" by (simp add: basename_def d)
  show "extension file = file" by (simp add: extension_def t)
qed

lemma code_parts_eq_spec_parts:
  "join_dot (butlast (split_dot file)) = basename file \<and> last (split_dot file) = extension file"
proof (cases "CHR ''.'' \<in> set file")
  case True
  then obtain a b where "file = a @ CHR ''.'' # b" and "CHR ''.'' \<notin> set b"
    by (auto dest: split_list_last)
  then show ?thesis by (simp add: split_at_last_dot)
next
  case False
  then show ?thesis by (simp add: no_dot_parts)
qed

lemma basename_dot_extension:
  "CHR ''.'' \<in> set file \<Longrightarrow> basename file @ ''.'' @ extension file = file"
proof -
  assume "CHR ''.'' \<in> set file"
  then obtain a b where "file = a @ CHR ''.'' # b" and "CHR ''.'' \<notin> set b"
    by (auto dest: split_list_last)
  then show ?thesis by (simp add: split_at_last_dot)
qed

lemma copy_of_file_candidate: "k \<noteq> 0 \<Longrightarrow> copy_of_file file k = candidate file k"
  by (simp add: copy_of_file_def candidate_def copy_suffix_def Let_def code_parts_eq_spec_parts)

section \<open>The probe for a free name\<close>

lemma opens_XL_READ_init:
  "opens fs path \<longleftrightarrow> (\<exists>x. XL_READ_init fs path None = Inr x)"
  by (simp add: opens_def XL_READ_init_def ExcelFile_def
      split: option.splits file_content.splits)

lemma not_opens_Inl: "\<not> opens fs path \<Longrightarrow> \<exists>e. XL_READ_init fs path None = Inl e"
  by (simp add: opens_def XL_READ_init_def ExcelFile_def
      split: option.splits file_content.splits)

lemma probe_stops:
  "XL_READ_init fs file None = Inl e \<Longrightarrow> probe fs file_name file n = Some file"
  by (subst probe.simps) simp

lemma probe_continues:
  "XL_READ_init fs file None = Inr x \<Longrightarrow>
   probe fs file_name file n = probe fs file_name (copy_of_file file_name (n + 1)) (n + 1)"
  by (subst probe.simps) simp

text \<open>
  From the \<open>n\<close>-th candidate the loop walks to the first candidate that does not open.
  The induction is on the distance to it.
\<close>

lemma probe_run:
  assumes "\<forall>i. n \<le> i \<and> i < k \<longrightarrow> opens fs (candidate file_name (int i))"
    and "\<not> opens fs (candidate file_name (int k))"
    and "n \<le> k"
  shows "probe fs file_name (candidate file_name (int n)) (int n)
         = Some (candidate file_name (int k))"
  using assms
proof (induction "k - n" arbitrary: n)
  case 0
  then have "n = k" by simp
  with "0.prems"(2) show ?case by (auto dest: not_opens_Inl simp: probe_stops)
next
  case (Suc d)
  then have lt: "n < k" by simp
  with Suc.prems(1) have "opens fs (candidate file_name (int n))" by simp
  then obtain x where x: "XL_READ_init fs (candidate file_name (int n)) None = Inr x"
    by (auto simp: opens_XL_READ_init)
  have s: "int n + 1 = int (Suc n)" by simp
  have c: "copy_of_file file_name (int (Suc n)) = candidate file_name (int (Suc n))"
    by (rule copy_of_file_candidate) simp
  have "probe fs file_name (candidate file_name (int (Suc n))) (int (Suc n)) =
        Some (candidate file_name (int k))"
  proof (rule Suc.hyps(1))
    show "d = k - Suc n" using Suc.hyps(2) by simp
    show "\<forall>i. Suc n \<le> i \<and> i < k \<longrightarrow> opens fs (candidate file_name (int i))"
      using Suc.prems(1) by simp
    show "\<not> opens fs (candidate file_name (int k))" by (rule Suc.prems(2))
    show "Suc n \<le> k" using lt by simp
  qed
  then show ?case unfolding probe_continues [OF x] s c .
qed

lemma copy_suffix_inj: "1 \<le> i \<Longrightarrow> 1 \<le> j \<Longrightarrow> copy_suffix i = copy_suffix j \<Longrightarrow> i = j"
proof -
  assume i: "1 \<le> i" and j: "1 \<le> j" and e: "copy_suffix i = copy_suffix j"
  show "i = j"
  proof (cases "i = 1 \<or> j = 1")
    case True
    with e show ?thesis by (auto simp: copy_suffix_def split: if_splits)
  next
    case False
    with e have "str_int i = str_int j" by (simp add: copy_suffix_def)
    with i j show ?thesis by (intro str_int_inj) simp_all
  qed
qed

lemma candidate_inj:
  "1 \<le> i \<Longrightarrow> 1 \<le> j \<Longrightarrow> candidate file i = candidate file j \<Longrightarrow> i = j"
  by (auto simp: candidate_def dest: copy_suffix_inj)

text \<open>The copies have pairwise different names, so finitely many files cannot take them all.\<close>

lemma some_candidate_free:
  assumes "finite (dom fs)"
  shows "\<exists>k::nat. \<not> opens fs (candidate file (int k))"
proof (rule ccontr)
  assume "\<not> ?thesis"
  then have all: "\<And>k::nat. opens fs (candidate file (int k))" by simp
  have "inj (\<lambda>k::nat. candidate file (int (Suc k)))"
  proof (rule injI)
    fix x y :: nat
    assume "candidate file (int (Suc x)) = candidate file (int (Suc y))"
    moreover have "1 \<le> int (Suc x)" "1 \<le> int (Suc y)" by simp_all
    ultimately have "int (Suc x) = int (Suc y)" by (intro candidate_inj)
    then show "x = y" by simp
  qed
  then have "infinite (range (\<lambda>k::nat. candidate file (int (Suc k))))"
    using finite_imageD [of "\<lambda>k::nat. candidate file (int (Suc k))" UNIV] by auto
  moreover have "range (\<lambda>k::nat. candidate file (int (Suc k))) \<subseteq> dom fs"
  proof
    fix p assume "p \<in> range (\<lambda>k::nat. candidate file (int (Suc k)))"
    then obtain k :: nat where "p = candidate file (int (Suc k))" by auto
    with all [of "Suc k"] show "p \<in> dom fs"
      by (auto simp: opens_def split: option.splits)
  qed
  ultimately show False using assms by (auto dest: finite_subset)
qed

lemma extension_no_dot: "CHR ''.'' \<notin> set (extension file)"
  unfolding extension_def using set_takeWhileD [of "CHR ''.''" _ "rev file"] by auto

text \<open>
  C1. With \<open>overwrite\<close> false the writer saves the workbook at the name that
  \<open>get_valid_file_name\<close> returns. On a file system of finitely many files the probe returns:
  it tries the target itself, then the name with \<open>" - Copy"\<close>, then with
  \<open>" - Copy (2)"\<close>, \<open>" - Copy (3)"\<close> and so on, each put before the last dot of the name
  the caller gave, and the result is the first of these that does not open as a workbook.
  The extension has no dot in it: only what follows the last dot is the extension, and a
  name with a dot is its basename, the dot and its extension.
\<close>

theorem get_valid_file_name_probes:
  assumes "finite (dom fs)"
  shows "\<exists>k::nat. get_valid_file_name fs file = Some (candidate file (int k))
           \<and> (\<forall>i<k. opens fs (candidate file (int i)))
           \<and> \<not> opens fs (candidate file (int k))
           \<and> (\<exists>content out'.
                 write_to_xl lib file dfs index False index_label (fs, out)
                 = Some (fs(candidate file (int k) \<mapsto> content), out'))
           \<and> CHR ''.'' \<notin> set (extension file)
           \<and> (CHR ''.'' \<in> set file \<longrightarrow> basename file @ ''.'' @ extension file = file)"
proof -
  define k where "k = (LEAST k::nat. \<not> opens fs (candidate file (int k)))"
  have free: "\<not> opens fs (candidate file (int k))"
    unfolding k_def using some_candidate_free [OF assms] by (rule LeastI_ex)
  have taken: "\<forall>i<k. opens fs (candidate file (int i))"
    unfolding k_def by (auto dest: not_less_Least)
  have "probe fs file (candidate file (int 0)) (int 0) = Some (candidate file (int k))"
    by (rule probe_run) (use free taken in auto)
  then have found: "get_valid_file_name fs file = Some (candidate file (int k))"
    by (simp add: get_valid_file_name_def candidate_def)
  then have "\<exists>content out'.
                 write_to_xl lib file dfs index False index_label (fs, out)
                 = Some (fs(candidate file (int k) \<mapsto> content), out')"
    by (auto simp: write_to_xl_def XL_WRITE_init_def XL_WRITE_write_def split: prod.splits)
  with found free taken show ?thesis
    using extension_no_dot basename_dot_extension by blast
qed

lemma get_valid_file_name_two_copies:
  "get_valid_file_name fs_two_copies ''X.xlsx'' = Some ''X - Copy (2).xlsx''"
  apply (simp add: get_valid_file_name_def)
  apply (subst probe.simps)
  apply (simp add: fs_two_copies_def XL_READ_init_def ExcelFile_def copy_of_file_def)
  apply (subst probe.simps)
  apply (simp add: fs_two_copies_def XL_READ_init_def ExcelFile_def copy_of_file_def)
  apply (subst probe.simps)
  apply (simp add: fs_two_copies_def XL_READ_init_def ExcelFile_def copy_of_file_def
      str_int_def str_nat.simps digit_def)
  done

theorem get_valid_file_name_probes_witness:
  "finite (dom fs_two_copies)
   \<and> get_valid_file_name fs_two_copies ''X.xlsx'' = Some ''X - Copy (2).xlsx''
   \<and> (\<exists>k::nat. candidate ''X.xlsx'' (int k) = ''X - Copy (2).xlsx''
          \<and> (\<forall>i<k. opens fs_two_copies (candidate ''X.xlsx'' (int i)))
          \<and> \<not> opens fs_two_copies ''X - Copy (2).xlsx'')"
proof -
  have f: "finite (dom fs_two_copies)" by (simp add: fs_two_copies_def)
  from get_valid_file_name_probes
    [OF f, of "''X.xlsx''" "book_library excel_illegal" "[]" False "[]" "[]"]
  show ?thesis using f by (auto simp: get_valid_file_name_two_copies)
qed

text \<open>
  C7. When the candidate that the probe loop holds fails to open as a workbook, for
  whatever reason, the loop ends there and returns that candidate. A file that exists
  and is malformed fails to open, as a missing one does.
\<close>

theorem probe_ends_where_open_fails:
  assumes "XL_READ_init fs file None = Inl e"
  shows "probe fs file_name file n = Some file"
  using assms by (rule probe_stops)

theorem probe_ends_where_open_fails_witness:
  "XL_READ_init fs_malformed ''X.xlsx'' None = Inl BadZipFile
   \<and> probe fs_malformed ''X.xlsx'' ''X.xlsx'' 0 = Some ''X.xlsx''
   \<and> get_valid_file_name fs_malformed ''X.xlsx'' = Some ''X.xlsx''"
proof -
  have o: "XL_READ_init fs_malformed ''X.xlsx'' None = Inl BadZipFile"
    by (simp add: XL_READ_init_def ExcelFile_def fs_malformed_def)
  from probe_ends_where_open_fails [OF o, of "''X.xlsx''" 0]
  show ?thesis using o by (simp add: get_valid_file_name_def)
qed

text \<open>
  C10. For a name without a dot, \<open>copy_of_file\<close> has the empty string as the name part
  and the whole name as the extension, so the copy is \<open>" - Copy."\<close> followed by the name,
  or \<open>" - Copy (n)."\<close> followed by the name.
\<close>

theorem copy_of_file_without_dot:
  assumes "CHR ''.'' \<notin> set file"
  shows "join_dot (butlast (split_dot file)) = []
       \<and> last (split_dot file) = file
       \<and> copy_of_file file 1 = '' - Copy.'' @ file
       \<and> copy_of_file file n
           = '' - Copy'' @ (if n = 1 then [] else '' ('' @ str_int n @ '')'') @ ''.'' @ file"
  using assms by (simp add: copy_of_file_def split_dot_no_dot)

theorem copy_of_file_without_dot_witness:
  "CHR ''.'' \<notin> set ''data''
   \<and> copy_of_file ''data'' 1 = '' - Copy.data''
   \<and> copy_of_file ''data'' 2 = '' - Copy (2).data''"
  using copy_of_file_without_dot [of "''data''" 2]
  by (simp add: str_int_def str_nat.simps digit_def)

section \<open>Ordered dictionaries and the reader\<close>


lemma setitem_keys:
  "map fst (setitem d key val) = (if key \<in> set (map fst d) then map fst d else map fst d @ [key])"
  by (induction d key val rule: setitem.induct) auto

lemma setitem_distinct: "distinct (map fst d) \<Longrightarrow> distinct (map fst (setitem d key val))"
  by (simp add: setitem_keys)

lemma map_of_setitem: "map_of (setitem d key val) = (map_of d)(key \<mapsto> val)"
  by (induction d key val rule: setitem.induct) (auto simp: fun_eq_iff)

lemma setitem_new: "key \<notin> set (map fst d) \<Longrightarrow> setitem d key val = d @ [(key, val)]"
  by (induction d key val rule: setitem.induct) auto

lemma update_distinct: "distinct (map fst d) \<Longrightarrow> distinct (map fst (update d other))"
  by (induction d other rule: update.induct) (simp_all add: setitem_distinct)

lemma map_of_update_dict:
  assumes "distinct (map fst other)"
  shows "map_of (update d other) k
         = (case map_of other k of Some t \<Rightarrow> Some t | None \<Rightarrow> map_of d k)"
  using assms
proof (induction d other rule: update.induct)
  case (1 d)
  show ?case by simp
next
  case (2 d key val other)
  then have ih: "map_of (update (setitem d key val) other) k
      = (case map_of other k of Some t \<Rightarrow> Some t | None \<Rightarrow> ((map_of d)(key \<mapsto> val)) k)"
    by (simp add: map_of_setitem cong: option.case_cong)
  from "2.prems" have "map_of other key = None"
    by (simp add: map_of_eq_None_iff)
  with ih show ?case by (auto split: option.splits)
qed

lemma update_fresh: "distinct (map fst (d @ other)) \<Longrightarrow> update d other = d @ other"
proof (induction d other rule: update.induct)
  case (1 d)
  show ?case by simp
next
  case (2 d key val other)
  from "2.prems" have k: "key \<notin> set (map fst d)" by auto
  from "2.prems" have "distinct (map fst ((d @ [(key, val)]) @ other))" by auto
  with 2 k show ?case by (simp add: setitem_new)
qed

lemma update_keys_prefix: "\<exists>new. map fst (update d other) = map fst d @ new"
  by (induction d other rule: update.induct) (auto simp: setitem_keys)

text \<open>The loop of \<open>read_sheets\<close> assigns every sheet in turn: it is an update.\<close>

lemma read_each_update:
  assumes "set names \<subseteq> fst ` set (xl x)"
  shows "read_each x names =
         Inr (x\<lparr>df_dict := update (df_dict x) (map (\<lambda>n. (n, the (map_of (xl x) n))) names)\<rparr>)"
  using assms
proof (induction names arbitrary: x)
  case Nil
  show ?case by simp
next
  case (Cons n names)
  from Cons.prems obtain df where df: "map_of (xl x) n = Some df"
    by (cases "map_of (xl x) n") (auto simp: map_of_eq_None_iff)
  have "set names \<subseteq> fst ` set (xl (XL_READ_setitem x n df))"
    using Cons.prems by (simp add: XL_READ_setitem_def)
  from Cons.IH [OF this] show ?case
    by (simp add: parse_def df XL_READ_setitem_def)
qed

lemma read_each_cases:
  "(\<exists>e. read_each x names = Inl e) \<or>
   read_each x names =
     Inr (x\<lparr>df_dict := update (df_dict x) (map (\<lambda>n. (n, the (map_of (xl x) n))) names)\<rparr>)"
proof (induction names arbitrary: x)
  case Nil
  show ?case by simp
next
  case (Cons n names)
  show ?case
  proof (cases "map_of (xl x) n")
    case None
    then show ?thesis by (simp add: parse_def)
  next
    case (Some df)
    with Cons [of "XL_READ_setitem x n df"] show ?thesis
      by (auto simp: parse_def XL_READ_setitem_def)
  qed
qed

lemma sheets_by_name:
  assumes "distinct (map fst book)"
  shows "map (\<lambda>n. (n, the (map_of book n))) (map fst book) = book"
proof -
  have "map (\<lambda>p. (fst p, the (map_of book (fst p)))) book = book"
  proof (rule map_idI)
    fix p assume "p \<in> set book"
    then have "map_of book (fst p) = Some (snd p)" using assms by simp
    then show "(fst p, the (map_of book (fst p))) = p" by simp
  qed
  then show ?thesis by (simp add: comp_def)
qed

lemma read_sheets_named: "truthy (sheet_name x) \<Longrightarrow> read_sheets x = Inl UnboundLocalError"
  by (simp add: read_sheets_def)

lemma read_xl_workbook:
  assumes "fs file = Some (Workbook book)"
  shows "read_xl fs file =
     Inr \<lparr>df_dict = update [] (map (\<lambda>n. (n, the (map_of book n))) (map fst book)),
          sheet_name = None, xl = book, sheet_names = map fst book\<rparr>"
  using assms read_each_update [of "map fst book" "\<lparr>df_dict = [], sheet_name = None, xl = book, sheet_names = map fst book\<rparr>"]
  by (simp add: read_xl_def XL_READ_init_def ExcelFile_def read_sheets_def)

lemma read_xl_distinct_workbook:
  assumes "fs file = Some (Workbook book)" and "distinct (map fst book)"
  shows "read_xl fs file = Inr \<lparr>df_dict = book, sheet_name = None, xl = book, sheet_names = map fst book\<rparr>"
proof -
  have "update [] (map (\<lambda>n. (n, the (map_of book n))) (map fst book)) = book"
    using assms(2) by (simp only: sheets_by_name) (simp add: update_fresh)
  with read_xl_workbook [of fs "file" book] assms(1) show ?thesis by simp
qed

lemma read_xl_fails: "fs file = None \<or> fs file = Some Malformed \<Longrightarrow> \<exists>e. read_xl fs file = Inl e"
  by (auto simp: read_xl_def XL_READ_init_def ExcelFile_def)


lemma map_of_update_rev:
  "map_of (update d other) k
   = (case map_of (rev other) k of Some t \<Rightarrow> Some t | None \<Rightarrow> map_of d k)"
proof (induction d other rule: update.induct)
  case (1 d)
  show ?case by simp
next
  case (2 d key val other)
  then have ih: "map_of (update (setitem d key val) other) k
      = (case map_of (rev other) k of Some t \<Rightarrow> Some t | None \<Rightarrow> ((map_of d)(key \<mapsto> val)) k)"
    by (simp add: map_of_setitem cong: option.case_cong)
  then show ?case by (auto simp: map_add_def split: option.splits)
qed

lemma map_of_named:
  "map_of (update [] (map (\<lambda>n. (n, f n)) names)) k = (if k \<in> set names then Some (f k) else None)"
proof -
  have "map_of (rev (map (\<lambda>n. (n, f n)) names)) = (Some \<circ> f) |` set (rev names)"
    unfolding rev_map by (rule map_of_map_restrict)
  then show ?thesis
    by (simp add: map_of_update_rev restrict_map_def)
qed

lemma map_of_sheets_read:
  "map_of (update [] (map (\<lambda>n. (n, the (map_of book n))) (map fst book))) k = map_of book k"
proof (cases "map_of book k")
  case None
  then have "k \<notin> set (map fst book)" by (simp add: map_of_eq_None_iff)
  with None show ?thesis unfolding map_of_named by simp
next
  case (Some t)
  then have "k \<in> set (map fst book)"
    using map_of_eq_None_iff [of book k] by auto
  with Some show ?thesis unfolding map_of_named by simp
qed

lemma prev_dict_distinct:
  "distinct (map fst (case read_xl fs file of Inr xlrd \<Rightarrow> df_dict xlrd | Inl e \<Rightarrow> []))"
proof (cases "fs file")
  case None
  then show ?thesis by (simp add: read_xl_def XL_READ_init_def ExcelFile_def)
next
  case (Some c)
  then show ?thesis
  proof (cases c)
    case Malformed
    with Some show ?thesis by (simp add: read_xl_def XL_READ_init_def ExcelFile_def)
  next
    case (Workbook book)
    with Some show ?thesis by (simp add: read_xl_workbook update_distinct)
  qed
qed

lemma prev_dict_existing:
  "map_of (case read_xl fs file of Inr xlrd \<Rightarrow> df_dict xlrd | Inl e \<Rightarrow> []) k
   = map_of (existing_tables fs file) k"
proof (cases "fs file")
  case None
  then show ?thesis
    by (simp add: read_xl_def XL_READ_init_def ExcelFile_def existing_tables_def)
next
  case (Some c)
  then show ?thesis
  proof (cases c)
    case Malformed
    with Some show ?thesis
      by (simp add: read_xl_def XL_READ_init_def ExcelFile_def existing_tables_def)
  next
    case (Workbook book)
    with Some show ?thesis
      by (simp add: read_xl_workbook existing_tables_def map_of_sheets_read del: map_map)
  qed
qed

lemma remove_swallowed:
  "(case os_remove fs file of Inr fs' \<Rightarrow> fs' | Inl e \<Rightarrow> fs) = fs(file := None)"
  by (cases "fs file") (auto simp: os_remove_def)

text \<open>
  C5. \<open>append_to_xl\<close> hands to \<open>write_to_xl\<close>, for a full rewrite, a collection with
  unique names in which a name of the new collection has the new table and every other
  name has the table that the path held: the tables of the workbook there, or none when
  the path is missing or does not open, the error of the read being caught. With
  \<open>overwrite\<close> the file is removed first, a missing file being no error. The new
  collection is a dictionary, so its names are unique.
\<close>

theorem append_to_xl_merges:
  assumes "distinct (map fst new_dict)"
  shows "\<exists>merged.
           append_to_xl lib file new_dict overwrite index_label (fs, out)
             = write_to_xl lib file merged False overwrite index_label
                 (if overwrite then fs(file := None) else fs, out)
         \<and> distinct (map fst merged)
         \<and> (\<forall>k. map_of merged k
                 = (case map_of new_dict k of
                      Some t \<Rightarrow> Some t
                    | None \<Rightarrow> map_of (existing_tables fs file) k))"
proof -
  define prev where
    "prev = (case read_xl fs file of Inr xlrd \<Rightarrow> df_dict xlrd | Inl e \<Rightarrow> [])"
  have run: "append_to_xl lib file new_dict overwrite index_label (fs, out)
             = write_to_xl lib file (update prev new_dict) False overwrite index_label
                 (if overwrite then fs(file := None) else fs, out)"
    by (simp add: append_to_xl_def prev_def remove_swallowed)
  have d: "distinct (map fst (update prev new_dict))"
    unfolding prev_def by (rule update_distinct) (rule prev_dict_distinct)
  have m: "\<forall>k. map_of (update prev new_dict) k
             = (case map_of new_dict k of
                  Some t \<Rightarrow> Some t
                | None \<Rightarrow> map_of (existing_tables fs file) k)"
    using assms by (simp add: map_of_update_dict prev_def prev_dict_existing cong: option.case_cong)
  from run d m show ?thesis by blast
qed

text \<open>
  C9. In a collection with unique sheet names, assigning a table keeps the names unique;
  a name that is present keeps its place and gets the new table, a new name goes to the
  end, and the other names keep their tables. \<open>read_sheets\<close>, when it returns, keeps
  the names unique and the names already there in their places; on a new reader of a
  workbook with unique sheet names it loads the sheets in the order of the workbook.
  Iteration yields the pairs in that order.
\<close>

theorem sheet_collection_invariant:
  assumes "distinct (map fst (df_dict x))"
  shows "distinct (map fst (df_dict (XL_READ_setitem x key val)))
       \<and> map fst (XL_READ_iter (XL_READ_setitem x key val))
           = (if key \<in> set (map fst (XL_READ_iter x)) then map fst (XL_READ_iter x)
              else map fst (XL_READ_iter x) @ [key])
       \<and> XL_READ_getitem (XL_READ_setitem x key val) key = Inr val
       \<and> (\<forall>k. k \<noteq> key \<longrightarrow>
             XL_READ_getitem (XL_READ_setitem x key val) k = XL_READ_getitem x k)
       \<and> (\<forall>x'. read_sheets x = Inr x' \<longrightarrow>
             distinct (map fst (df_dict x'))
             \<and> (\<exists>new. map fst (XL_READ_iter x') = map fst (XL_READ_iter x) @ new))
       \<and> (df_dict x = [] \<and> sheet_name x = None \<and> distinct (sheet_names x)
            \<and> set (sheet_names x) \<subseteq> fst ` set (xl x) \<longrightarrow>
            (\<exists>x'. read_sheets x = Inr x'
               \<and> map fst (XL_READ_iter x') = sheet_names x
               \<and> (\<forall>n \<in> set (sheet_names x). XL_READ_getitem x' n = parse (xl x) n)))"
proof (intro conjI allI impI)
  show "distinct (map fst (df_dict (XL_READ_setitem x key val)))"
    using assms by (simp add: XL_READ_setitem_def setitem_distinct)
  show "map fst (XL_READ_iter (XL_READ_setitem x key val))
           = (if key \<in> set (map fst (XL_READ_iter x)) then map fst (XL_READ_iter x)
              else map fst (XL_READ_iter x) @ [key])"
    by (simp add: XL_READ_iter_def XL_READ_setitem_def setitem_keys)
  show "XL_READ_getitem (XL_READ_setitem x key val) key = Inr val"
    by (simp add: XL_READ_getitem_def XL_READ_setitem_def map_of_setitem)
next
  fix k assume "k \<noteq> key"
  then show "XL_READ_getitem (XL_READ_setitem x key val) k = XL_READ_getitem x k"
    by (simp add: XL_READ_getitem_def XL_READ_setitem_def map_of_setitem)
next
  fix x' assume r: "read_sheets x = Inr x'"
  then have e: "read_each x (sheet_names x) = Inr x'"
    by (simp add: read_sheets_def split: if_splits)
  with read_each_cases [of x "sheet_names x"] have
    x': "x' = x\<lparr>df_dict := update (df_dict x)
                  (map (\<lambda>n. (n, the (map_of (xl x) n))) (sheet_names x))\<rparr>"
    by auto
  show "distinct (map fst (df_dict x'))"
    using assms by (simp add: x' update_distinct)
  show "\<exists>new. map fst (XL_READ_iter x') = map fst (XL_READ_iter x) @ new"
    using update_keys_prefix by (simp add: x' XL_READ_iter_def)
next
  assume a: "df_dict x = [] \<and> sheet_name x = None \<and> distinct (sheet_names x)
            \<and> set (sheet_names x) \<subseteq> fst ` set (xl x)"
  let ?items = "map (\<lambda>n. (n, the (map_of (xl x) n))) (sheet_names x)"
  have keys: "map fst ?items = sheet_names x" by (simp add: comp_def)
  have "read_sheets x = Inr (x\<lparr>df_dict := update [] ?items\<rparr>)"
    using a read_each_update [of "sheet_names x" x] by (simp add: read_sheets_def)
  moreover have u: "update [] ?items = ?items"
    using a keys by (simp add: update_fresh del: map_map)
  moreover have "\<forall>n \<in> set (sheet_names x). map_of ?items n = Some (the (map_of (xl x) n))"
    by (simp add: map_of_map_restrict restrict_map_def)
  moreover have "\<forall>n \<in> set (sheet_names x). parse (xl x) n = Inr (the (map_of (xl x) n))"
  proof
    fix n assume "n \<in> set (sheet_names x)"
    with a have "n \<in> fst ` set (xl x)" by auto
    then obtain df where "map_of (xl x) n = Some df"
      by (cases "map_of (xl x) n") (auto simp: map_of_eq_None_iff)
    then show "parse (xl x) n = Inr (the (map_of (xl x) n))" by (simp add: parse_def)
  qed
  ultimately show "\<exists>x'. read_sheets x = Inr x'
               \<and> map fst (XL_READ_iter x') = sheet_names x
               \<and> (\<forall>n \<in> set (sheet_names x). XL_READ_getitem x' n = parse (xl x) n)"
    using keys by (simp add: XL_READ_iter_def XL_READ_getitem_def del: map_map)
qed


theorem append_to_xl_merges_witness:
  "distinct (map fst [(''B'', table_y)])
   \<and> map_option (\<lambda>st. (fst st ''f.xlsx'', snd st))
        (append_to_xl (book_library excel_illegal) ''f.xlsx'' [(''B'', table_y)] True [] (fs_xx, []))
       = Some (Some (Workbook [(''A'', table_x), (''B'', table_y)]), [])
   \<and> (\<exists>merged. map_of merged ''A'' = Some table_x \<and> map_of merged ''B'' = Some table_y
          \<and> map_of merged ''C'' = None)"
proof -
  have d: "distinct (map fst [(''B'', table_y)])" by simp
  have run: "map_option (\<lambda>st. (fst st ''f.xlsx'', snd st))
        (append_to_xl (book_library excel_illegal) ''f.xlsx'' [(''B'', table_y)] True [] (fs_xx, []))
       = Some (Some (Workbook [(''A'', table_x), (''B'', table_y)]), [])"
    by (simp add: append_to_xl_def read_xl_def XL_READ_init_def ExcelFile_def fs_xx_def
        read_sheets_def parse_def XL_READ_setitem_def os_remove_def write_to_xl_def
        XL_WRITE_init_def XL_WRITE_write_def write_sheet_def book_library_def
        excel_illegal_def sheet_of_def)
  from append_to_xl_merges [OF d, of "book_library excel_illegal" "''f.xlsx''" True "[]" fs_xx "[]"]
  obtain merged where
    "\<forall>k. map_of merged k = (case map_of [(''B'', table_y)] k of
                             Some t \<Rightarrow> Some t
                           | None \<Rightarrow> map_of (existing_tables fs_xx ''f.xlsx'') k)"
    by blast
  then have "map_of merged ''A'' = Some table_x \<and> map_of merged ''B'' = Some table_y
          \<and> map_of merged ''C'' = None"
    by (simp add: existing_tables_def fs_xx_def)
  with d run show ?thesis by blast
qed

theorem sheet_collection_invariant_witness:
  "distinct (map fst (df_dict reader_AB))
   \<and> distinct (map fst (df_dict (XL_READ_setitem reader_AB ''A'' 9)))
   \<and> XL_READ_iter (XL_READ_setitem reader_AB ''A'' 9) = [(''A'', 9), (''B'', 2)]
   \<and> XL_READ_iter (XL_READ_setitem reader_AB ''C'' 9) = [(''A'', 1), (''B'', 2), (''C'', 9)]
   \<and> map_sum id XL_READ_iter (read_sheets reader_AB)
       = Inr [(''A'', 1), (''B'', 5), (''C'', 7)]"
proof -
  have d: "distinct (map fst (df_dict reader_AB))" by (simp add: reader_AB_def)
  from sheet_collection_invariant [OF d, of "''A''" 9]
  have "distinct (map fst (df_dict (XL_READ_setitem reader_AB ''A'' 9)))" by blast
  with d show ?thesis
    by (simp add: reader_AB_def XL_READ_setitem_def XL_READ_iter_def read_sheets_def parse_def)
qed

text \<open>
  C3. A reader made for the sheet \<open>Sheet1\<close> of a workbook that has this sheet: the
  constructor succeeds, and \<open>read_sheets\<close> raises \<open>UnboundLocalError\<close> instead of
  loading the sheet.
\<close>

theorem read_sheets_named_sheet_raises:
  "XL_READ_init fs_one_sheet ''book.xlsx'' (Some ''Sheet1'')
     = Inr \<lparr>df_dict = [], sheet_name = Some ''Sheet1'', xl = [(''Sheet1'', 0)],
            sheet_names = [''Sheet1'']\<rparr>
   \<and> read_sheets \<lparr>df_dict = [], sheet_name = Some ''Sheet1'', xl = [(''Sheet1'', 0::nat)],
            sheet_names = [''Sheet1'']\<rparr> = Inl UnboundLocalError"
  by (simp add: XL_READ_init_def ExcelFile_def fs_one_sheet_def read_sheets_def)

section \<open>Writing the sheets\<close>


lemma write_sheet_out:
  "write_sheet lib fileName index index_label item (w, out)
   = (fst (write_sheet lib fileName index index_label item (w, [])),
      out @ snd (write_sheet lib fileName index index_label item (w, [])))"
  by (simp add: write_sheet_def Let_def split: prod.splits option.splits)

lemma write_sheets_out:
  "write_sheets lib fileName index index_label dfs (w, out)
   = (fst (write_sheets lib fileName index index_label dfs (w, [])),
      out @ snd (write_sheets lib fileName index index_label dfs (w, [])))"
proof (induction dfs arbitrary: w out)
  case Nil
  show ?case by simp
next
  case (Cons item dfs)
  obtain w1 ps where s: "write_sheet lib fileName index index_label item (w, []) = (w1, ps)"
    by (cases "write_sheet lib fileName index index_label item (w, [])")
  have s': "write_sheet lib fileName index index_label item (w, out) = (w1, out @ ps)"
    using write_sheet_out [of lib fileName index index_label item w out] by (simp add: s)
  show ?case
    using Cons [of w1 "out @ ps"] Cons [of w1 ps] by (simp add: s s')
qed

text \<open>
  C6. With \<open>overwrite\<close> true the writer saves one workbook at exactly the path it was
  given and changes no other path: the content and the lines printed are the same for
  every file system, so what was at the path before is not looked at. Writing the same
  collection a second time leaves the same file system as the first time.
\<close>

theorem overwrite_writes_exact_path:
  "\<exists>content lines. \<forall>fs out.
      write_to_xl lib name dfs index True index_label (fs, out)
        = Some (fs(name \<mapsto> content), out @ lines)
    \<and> Option.bind (write_to_xl lib name dfs index True index_label (fs, out))
         (write_to_xl lib name dfs index True index_label)
        = Some (fs(name \<mapsto> content), out @ lines @ lines)"
proof -
  obtain w ps where
    r: "write_sheets lib name index index_label dfs (ExcelWriter lib name, []) = (w, ps)"
    by (cases "write_sheets lib name index index_label dfs (ExcelWriter lib name, [])")
  have one: "write_to_xl lib name dfs index True index_label (fs, out)
             = Some (fs(name \<mapsto> Workbook (save lib w)), out @ ps)" for fs out
    using write_sheets_out [of lib name index index_label dfs "ExcelWriter lib name" out]
    by (simp add: write_to_xl_def XL_WRITE_init_def XL_WRITE_write_def r)
  have "\<forall>fs out.
      write_to_xl lib name dfs index True index_label (fs, out)
        = Some (fs(name \<mapsto> Workbook (save lib w)), out @ ps)
    \<and> Option.bind (write_to_xl lib name dfs index True index_label (fs, out))
         (write_to_xl lib name dfs index True index_label)
        = Some (fs(name \<mapsto> Workbook (save lib w)), out @ ps @ ps)"
    by (simp add: one)
  then show ?thesis by blast
qed






theorem overwrite_writes_exact_path_witness:
  "map_option fst
     (Option.bind
        (write_to_xl (book_library excel_illegal) ''f.xlsx'' [(''B'', table_y)] False True []
           (fs_xx, []))
        (write_to_xl (book_library excel_illegal) ''f.xlsx'' [(''B'', table_y)] False True []))
   = Some (fs_xx(''f.xlsx'' \<mapsto> Workbook [(''B'', table_y)]))"
proof -
  from overwrite_writes_exact_path
    [of "book_library excel_illegal" "''f.xlsx''" "[(''B'', table_y)]" False "[]"]
  obtain content lines where
    c: "\<And>fs out. write_to_xl (book_library excel_illegal) ''f.xlsx'' [(''B'', table_y)] False
           True [] (fs, out) = Some (fs(''f.xlsx'' \<mapsto> content), out @ lines)"
    and t: "\<And>fs out. Option.bind
        (write_to_xl (book_library excel_illegal) ''f.xlsx'' [(''B'', table_y)] False True []
           (fs, out))
        (write_to_xl (book_library excel_illegal) ''f.xlsx'' [(''B'', table_y)] False True [])
        = Some (fs(''f.xlsx'' \<mapsto> content), out @ lines @ lines)"
    by blast
  have "write_to_xl (book_library excel_illegal) ''f.xlsx'' [(''B'', table_y)] False True []
          (Map.empty, [])
        = Some ([''f.xlsx'' \<mapsto> Workbook [(''B'', table_y)]], [])"
    by (simp add: write_to_xl_def XL_WRITE_init_def XL_WRITE_write_def write_sheet_def
        book_library_def excel_illegal_def sheet_of_def)
  with c [of Map.empty "[]"] have "content = Workbook [(''B'', table_y)]"
    by (auto dest: map_upd_eqD1)
  with t [of fs_xx "[]"] show ?thesis by simp
qed

section \<open>Writing and reading back\<close>

text \<open>
  What the code of the repository does on the way from a collection to a file and back.
  The tables themselves pass through \<open>to_excel\<close> and \<open>parse\<close> of the library, and the
  form in which a table comes back is the library's: nothing is said about it here.
\<close>

lemma write_sheets_accepted:
  assumes accepts: "\<And>w k df. length k \<le> 31 \<Longrightarrow> set k \<inter> illegal = {}
             \<Longrightarrow> k \<notin> set (map fst (save lib w))
             \<Longrightarrow> \<exists>w' t. to_excel lib w k df index index_label = (None, w')
                      \<and> save lib w' = save lib w @ [(k, t)]"
    and "distinct (map fst dfs)"
    and "\<forall>(k, df) \<in> set dfs. length k \<le> 31 \<and> set k \<inter> illegal = {}"
    and "set (map fst (save lib w)) \<inter> set (map fst dfs) = {}"
  shows "\<exists>w'. write_sheets lib fileName index index_label dfs (w, out) = (w', out)
            \<and> map fst (save lib w') = map fst (save lib w) @ map fst dfs"
  using assms(2-)
proof (induction dfs arbitrary: w)
  case Nil
  show ?case by simp
next
  case (Cons item dfs)
  obtain k df where item: "item = (k, df)" by (cases item)
  from Cons.prems item have k: "length k \<le> 31" "set k \<inter> illegal = {}"
    "k \<notin> set (map fst (save lib w))" by auto
  from accepts [OF k, of df] obtain w1 t where
    w1: "to_excel lib w k df index index_label = (None, w1)"
    and s1: "save lib w1 = save lib w @ [(k, t)]" by blast
  have step: "write_sheet lib fileName index index_label item (w, out) = (w1, out)"
    by (simp add: write_sheet_def item w1)
  have "\<exists>w'. write_sheets lib fileName index index_label dfs (w1, out) = (w', out)
            \<and> map fst (save lib w') = map fst (save lib w1) @ map fst dfs"
  proof (rule Cons.IH)
    show "distinct (map fst dfs)" using Cons.prems by simp
    show "\<forall>(k, df) \<in> set dfs. length k \<le> 31 \<and> set k \<inter> illegal = {}"
      using Cons.prems by simp
    show "set (map fst (save lib w1)) \<inter> set (map fst dfs) = {}"
      using Cons.prems item by (auto simp: s1)
  qed
  then show ?case by (auto simp: step [unfolded item] s1 item)
qed

text \<open>
  Take a path that holds nothing, a collection with unique names of at most 31 characters
  without illegal characters, and a library that starts from an empty workbook and
  accepts such a name when the workbook does not have it yet. Then \<open>write_to_xl\<close> writes at
  that very path without printing anything, and \<open>read_xl\<close> of it loads one sheet for each
  table, under the same names in the same order.
\<close>

lemma write_then_read_sheet_names:
  assumes fresh: "fs file = None"
    and names: "distinct (map fst dfs)"
    and legal: "\<forall>(k, df) \<in> set dfs. length k \<le> 31 \<and> set k \<inter> illegal = {}"
    and new_writer: "save lib (ExcelWriter lib file) = []"
    and accepts: "\<And>w k df. length k \<le> 31 \<Longrightarrow> set k \<inter> illegal = {}
             \<Longrightarrow> k \<notin> set (map fst (save lib w))
             \<Longrightarrow> \<exists>w' t. to_excel lib w k df index index_label = (None, w')
                      \<and> save lib w' = save lib w @ [(k, t)]"
  shows "\<exists>fs' x. write_to_xl lib file dfs index False index_label (fs, out) = Some (fs', out)
           \<and> read_xl fs' file = Inr x
           \<and> map fst (XL_READ_iter x) = map fst dfs
           \<and> XL_READ_len x = length dfs"
proof -
  have name: "get_valid_file_name fs file = Some file"
    unfolding get_valid_file_name_def
    by (rule probe_stops [of _ _ FileNotFoundError])
       (simp add: XL_READ_init_def ExcelFile_def fresh)
  have "set (map fst (save lib (ExcelWriter lib file))) \<inter> set (map fst dfs) = {}"
    by (simp add: new_writer)
  from write_sheets_accepted [of illegal lib index index_label dfs, OF accepts names legal this]
  obtain w' where
    w: "write_sheets lib file index index_label dfs (ExcelWriter lib file, out) = (w', out)"
    and s: "map fst (save lib w') = map fst dfs"
    by (auto simp: new_writer)
  let ?book = "save lib w'"
  let ?fs = "fs(file \<mapsto> Workbook ?book)"
  have wr: "write_to_xl lib file dfs index False index_label (fs, out) = Some (?fs, out)"
    by (simp add: write_to_xl_def XL_WRITE_init_def XL_WRITE_write_def name w)
  have d: "distinct (map fst ?book)" using names by (simp only: s)
  have "read_xl ?fs file
        = Inr \<lparr>df_dict = ?book, sheet_name = None, xl = ?book, sheet_names = map fst ?book\<rparr>"
    by (rule read_xl_distinct_workbook) (simp, rule d)
  moreover have "length ?book = length dfs"
    using arg_cong [OF s, of length] by simp
  ultimately show ?thesis using wr
    by (simp add: XL_READ_iter_def XL_READ_len_def s)
qed

lemma write_then_read_sheet_names_example:
  "fs_xy ''new.xlsx'' = None
   \<and> (\<exists>fs' x. write_to_xl (book_library excel_illegal) ''new.xlsx''
                 [(''A'', table_x), (''B'', table_y)] False False [] (fs_xy, [])
               = Some (fs', [])
         \<and> read_xl fs' ''new.xlsx'' = Inr x
         \<and> map fst (XL_READ_iter x) = [''A'', ''B'']
         \<and> XL_READ_len x = 2)"
proof -
  have fresh: "fs_xy ''new.xlsx'' = None" by (simp add: fs_xy_def)
  have names: "distinct (map fst [(''A'', table_x), (''B'', table_y)])" by simp
  have legal: "\<forall>(k, df) \<in> set [(''A'', table_x), (''B'', table_y)].
                 length k \<le> 31 \<and> set k \<inter> excel_illegal = {}"
    by (simp add: excel_illegal_def)
  have new_writer: "save (book_library excel_illegal)
                      (ExcelWriter (book_library excel_illegal) ''new.xlsx'') = []"
    by (simp add: book_library_def)
  have accepts: "\<exists>w' t. to_excel (book_library excel_illegal) w k df False [] = (None, w')
                      \<and> save (book_library excel_illegal) w'
                         = save (book_library excel_illegal) w @ [(k, t)]"
    if "length k \<le> 31" "set k \<inter> excel_illegal = {}"
       "k \<notin> set (map fst (save (book_library excel_illegal) w))" for w k df
    using that by (simp add: book_library_def)
  from write_then_read_sheet_names
    [of fs_xy "''new.xlsx''" "[(''A'', table_x), (''B'', table_y)]" excel_illegal
        "book_library excel_illegal" False "[]" "[]",
     OF fresh names legal new_writer accepts]
  show ?thesis using fresh by (simp add: numeral_2_eq_2)
qed

section \<open>Merging the sheets\<close>


lemma lookup_absent: "c \<notin> set cols \<Longrightarrow> map_of (zip cols r) c = None"
  by (auto simp: map_of_eq_None_iff dest: set_zip_leftD)

lemma lookup_computed: "c \<in> set cols \<Longrightarrow> map_of (zip cols (map g cols)) c = Some (g c)"
  by (simp add: map_of_zip_map)

lemma lookup_mapped: "map_of (zip cols (map f r)) c = map_option f (map_of (zip cols r) c)"
proof (induction cols arbitrary: r)
  case Nil
  show ?case by simp
next
  case (Cons k cols)
  then show ?case by (cases r) simp_all
qed

lemma lookup_present:
  "c \<in> set cols \<Longrightarrow> length r = length cols \<Longrightarrow> \<exists>v. map_of (zip cols r) c = Some v"
  using map_of_zip_is_Some [of cols r c] by simp

lemma columns_concat2:
  "columns (concat2 a b) = columns a @ filter (\<lambda>c. c \<notin> set (columns a)) (columns b)"
  by (simp add: concat2_def Let_def)

lemma rows_concat2:
  "rows (concat2 a b) = reindex (columns (concat2 a b)) a @ reindex (columns (concat2 a b)) b"
  by (simp add: concat2_def Let_def)

lemma length_reindex: "length (reindex cols df) = length (rows df)"
  by (simp add: reindex_def)

lemma nth_reindex:
  "i < length (rows df) \<Longrightarrow>
   reindex cols df ! i
   = map (\<lambda>c. case map_of (zip (columns df) (rows df ! i)) c of None \<Rightarrow> NaN | Some v \<Rightarrow> v) cols"
  by (simp add: reindex_def)

text \<open>A cell of the second table of a concatenation, read from the result.\<close>

lemma loc_concat2_second:
  assumes "i < length (rows b)" and "c \<in> set (columns (concat2 a b))"
  shows "loc (concat2 a b) (length (rows a) + i) c
         = Inr (case map_of (zip (columns b) (rows b ! i)) c of None \<Rightarrow> NaN | Some v \<Rightarrow> v)"
proof -
  let ?cols = "columns (concat2 a b)"
  have "rows (concat2 a b) ! (length (rows a) + i) = reindex ?cols b ! i"
    by (simp add: rows_concat2 nth_append length_reindex)
  moreover have "length (rows a) + i < length (rows (concat2 a b))"
    using assms(1) by (simp add: rows_concat2 length_reindex)
  ultimately show ?thesis
    using assms by (simp add: loc_def nth_reindex lookup_computed)
qed

lemma merge_two_sheets:
  assumes "fs file = Some (Workbook [(na, A), (nb, B)])" and "na \<noteq> nb"
  shows "get_merged_DataFrame_of_file fs file
         = Inr (concat2 (fillna (Str []) B) (concat2 (fillna (Str []) A) DataFrame_empty))"
proof -
  have "distinct (map fst [(na, A), (nb, B)])" using assms(2) by simp
  from read_xl_distinct_workbook [of fs "file" "[(na, A), (nb, B)]"] assms(1) this show ?thesis
    by (simp add: get_merged_DataFrame_of_file_def XL_READ_iter_def Let_def)
qed

text \<open>
  C2, as the code has it. In a workbook of two sheets, where the second has a column \<open>y\<close>
  that the first lacks, the merged table has the rows of the second sheet first, and the
  rows of the first sheet read as the missing value under \<open>y\<close>: each sheet is filled
  before the concatenation, which then adds the missing cells. Under a column \<open>x\<close> of its
  own, a row of the first sheet reads as the empty string where the sheet had the missing
  value, and as the sheet's cell otherwise.
\<close>

theorem merged_cells_of_first_sheet:
  assumes book: "fs file = Some (Workbook [(na, A), (nb, B)])" and names: "na \<noteq> nb"
    and y: "y \<in> set (columns B)" "y \<notin> set (columns A)"
    and x: "x \<in> set (columns A)"
    and i: "i < length (rows A)" and row: "length (rows A ! i) = length (columns A)"
  shows "\<exists>m v. get_merged_DataFrame_of_file fs file = Inr m
           \<and> loc m (length (rows B) + i) y = Inr NaN
           \<and> loc A i x = Inr v
           \<and> loc m (length (rows B) + i) x = Inr (if v = NaN then Str [] else v)"
proof -
  let ?fill = "\<lambda>c. if c = NaN then Str [] else c"
  let ?A = "fillna (Str []) A" and ?B = "fillna (Str []) B"
  let ?inner = "concat2 ?A DataFrame_empty"
  let ?m = "concat2 ?B ?inner"
  let ?r = "rows A ! i"
  have m: "get_merged_DataFrame_of_file fs file = Inr ?m"
    using book names by (rule merge_two_sheets)
  have colsA: "columns ?A = columns A" and colsB: "columns ?B = columns B"
    and rowsB: "length (rows ?B) = length (rows B)"
    and rowsA: "length (rows ?A) = length (rows A)"
    and rowA: "rows ?A ! i = map ?fill ?r"
    using i by (simp_all add: fillna_def)
  have cols_inner: "columns ?inner = columns A"
    by (simp add: columns_concat2 colsA DataFrame_empty_def)
  have rows_inner: "rows ?inner = reindex (columns A) ?A"
    by (simp add: rows_concat2 cols_inner) (simp add: reindex_def DataFrame_empty_def)
  have i_inner: "i < length (rows ?inner)"
    using i by (simp only: rows_inner length_reindex rowsA)
  have row_inner: "rows ?inner ! i
      = map (\<lambda>c. case map_of (zip (columns A) (map ?fill ?r)) c of None \<Rightarrow> NaN | Some v \<Rightarrow> v)
          (columns A)"
    using i by (simp only: rows_inner nth_reindex colsA rowA rowsA)
  have y_m: "y \<in> set (columns ?m)" and x_m: "x \<in> set (columns ?m)"
    using y x by (auto simp: columns_concat2 [of "fillna (Str []) B"] colsB cols_inner)
  have "loc ?m (length (rows B) + i) y
        = Inr (case map_of (zip (columns ?inner) (rows ?inner ! i)) y of
                 None \<Rightarrow> NaN | Some v \<Rightarrow> v)"
    using loc_concat2_second [OF i_inner y_m] by (simp only: rowsB)
  then have at_y: "loc ?m (length (rows B) + i) y = Inr NaN"
    using y(2) by (simp add: cols_inner lookup_absent)
  from lookup_present [OF x row] obtain v where v: "map_of (zip (columns A) ?r) x = Some v"
    by blast
  then have at_A: "loc A i x = Inr v" using i by (simp add: loc_def)
  have "loc ?m (length (rows B) + i) x
        = Inr (case map_of (zip (columns ?inner) (rows ?inner ! i)) x of
                 None \<Rightarrow> NaN | Some v \<Rightarrow> v)"
    using loc_concat2_second [OF i_inner x_m] by (simp only: rowsB)
  moreover have "map_of (zip (columns A) (rows ?inner ! i)) x
        = Some (case map_of (zip (columns A) (map ?fill ?r)) x of None \<Rightarrow> NaN | Some v \<Rightarrow> v)"
    unfolding row_inner using x by (rule lookup_computed)
  moreover have "map_of (zip (columns A) (map ?fill ?r)) x = Some (?fill v)"
    by (simp only: lookup_mapped v option.map)
  ultimately have at_x: "loc ?m (length (rows B) + i) x = Inr (?fill v)"
    by (simp only: cols_inner option.case)
  from m at_y at_A at_x show ?thesis by blast
qed

text \<open>
  C2, as stated, fails: sheet \<open>A\<close> has the column \<open>x\<close>, sheet \<open>B\<close> the column \<open>y\<close>, and
  the first row of \<open>A\<close> in the merged table holds the missing value under \<open>y\<close>, not the
  empty string.
\<close>

theorem merge_leaves_missing_counterexample:
  "get_merged_DataFrame_of_file fs_xy ''f.xlsx''
     = Inr \<lparr>columns = [''y'', ''x''], rows = [[Num 2, NaN], [NaN, Num 1], [NaN, Str []]]\<rparr>
   \<and> loc \<lparr>columns = [''y'', ''x''], rows = [[Num 2, NaN], [NaN, Num 1], [NaN, Str []]]\<rparr>
        1 ''y'' = Inr NaN
   \<and> loc \<lparr>columns = [''y'', ''x''], rows = [[Num 2, NaN], [NaN, Num 1], [NaN, Str []]]\<rparr>
        1 ''y'' \<noteq> Inr (Str [])"
  by (simp add: get_merged_DataFrame_of_file_def read_xl_def XL_READ_init_def ExcelFile_def
      fs_xy_def read_sheets_def parse_def XL_READ_setitem_def XL_READ_iter_def
      table_x_def table_y_def fillna_def concat2_def reindex_def DataFrame_empty_def loc_def)

theorem merged_cells_of_first_sheet_witness:
  "fs_xy ''f.xlsx'' = Some (Workbook [(''A'', table_x), (''B'', table_y)])
   \<and> ''y'' \<in> set (columns table_y) \<and> ''y'' \<notin> set (columns table_x)
   \<and> ''x'' \<in> set (columns table_x) \<and> 1 < length (rows table_x)
   \<and> (\<exists>m. get_merged_DataFrame_of_file fs_xy ''f.xlsx'' = Inr m
          \<and> loc m 2 ''y'' = Inr NaN \<and> loc table_x 1 ''x'' = Inr NaN
          \<and> loc m 2 ''x'' = Inr (Str []))"
proof -
  have book: "fs_xy ''f.xlsx'' = Some (Workbook [(''A'', table_x), (''B'', table_y)])"
    by (simp add: fs_xy_def)
  have names: "''A'' \<noteq> ''B''" by simp
  have y: "''y'' \<in> set (columns table_y)" "''y'' \<notin> set (columns table_x)"
    by (simp_all add: table_x_def table_y_def)
  have x: "''x'' \<in> set (columns table_x)" by (simp add: table_x_def)
  have i: "1 < length (rows table_x)" by (simp add: table_x_def)
  have row: "length (rows table_x ! 1) = length (columns table_x)" by (simp add: table_x_def)
  have v: "loc table_x 1 ''x'' = Inr NaN" by (simp add: loc_def table_x_def)
  have n: "length (rows table_y) = 1" by (simp add: table_y_def)
  from merged_cells_of_first_sheet
    [of fs_xy "''f.xlsx''" "''A''" table_x "''B''" table_y "''y''" "''x''" 1]
    book names y x i row
  show ?thesis using v by (auto simp: n numeral_2_eq_2)
qed

end
